theory Spec2Isabelle
  imports Main "HOL-Library.Sublist"
begin

text \<open>
  The script of \<open>src/App.vue\<close>, a note-taking component. Its reactive variables are the
  fields of a record and each handler is a function on that record. Whatever the host
  hands to a handler while it runs is an argument of the function: the readings of the
  clock, the answer of the \<open>confirm\<close> dialog, the text in local storage and what
  \<open>JSON.parse\<close> makes of it, the selection of the text area, and \<open>toLowerCase\<close>.
  An alert or an uncaught exception is returned next to the state. The watcher that
  writes \<open>notes.value\<close> back to local storage, the save indicator, the view mode and
  the date and word-count helpers of the template are left out.
\<close>

section \<open>Host values: strings, whitespace, the clock's ISO rendering\<close>

text \<open>
  A JavaScript string is a sequence of UTF-16 code units. A code unit is modelled as a
  natural number, so that the bullet marker of \<open>applyFormat\<close> and the Unicode white space
  that \<open>trim\<close> removes are representable; \<open>js\<close> embeds an ASCII literal.
\<close>

type_synonym jsstring = "nat list"

definition js :: "string \<Rightarrow> jsstring" where
  "js s = map of_char s"

text \<open>
  \<open>String.prototype.trim\<close> removes leading and trailing WhiteSpace and LineTerminator
  code points: TAB, LF, VT, FF, CR, SPACE, NBSP, the other space separators (U+1680,
  U+2000 to U+200A, U+202F, U+205F, U+3000), LS, PS and U+FEFF.
\<close>

definition isWhiteSpace :: "nat \<Rightarrow> bool" where
  "isWhiteSpace c \<longleftrightarrow>
     c \<in> {9, 10, 11, 12, 13, 32, 160, 5760, 8232, 8233, 8239, 8287, 12288, 65279}
     \<or> (8192 \<le> c \<and> c \<le> 8202)"

definition trim :: "jsstring \<Rightarrow> jsstring" where
  "trim s = rev (dropWhile isWhiteSpace (rev (dropWhile isWhiteSpace s)))"

text \<open>
  \<open>s.includes(q)\<close>: the search tries every start position of \<open>s\<close> from the left,
  the position after the last code unit included.
\<close>

fun includes_str :: "jsstring \<Rightarrow> jsstring \<Rightarrow> bool" where
  "includes_str [] q = (q = [])"
| "includes_str (c # s) q = (prefix q (c # s) \<or> includes_str s q)"

text \<open>
  \<open>s.substring(a, b)\<close> for non-negative integer arguments: both are clamped to the
  length and swapped when \<open>a > b\<close>; \<open>s.substring(a)\<close> runs to the end.
\<close>

definition substring :: "jsstring \<Rightarrow> nat \<Rightarrow> nat \<Rightarrow> jsstring" where
  "substring s a b =
     (let finalStart = min a (length s); finalEnd = min b (length s);
          from' = min finalStart finalEnd; to' = max finalStart finalEnd
      in take (to' - from') (drop from' s))"

definition substringFrom :: "jsstring \<Rightarrow> nat \<Rightarrow> jsstring" where
  "substringFrom s a = substring s a (length s)"

text \<open>
  \<open>Date.prototype.toISOString\<close> of a time value (milliseconds since the epoch, UTC):
  \<open>YYYY-MM-DDTHH:mm:ss.sssZ\<close>, the year with a sign and six digits outside 0..9999.
  The civil date is computed from the day number in the proleptic Gregorian calendar.
\<close>

definition digit :: "int \<Rightarrow> nat" where
  "digit d = nat (48 + d mod 10)"

definition pad2 :: "int \<Rightarrow> jsstring" where
  "pad2 n = [digit (n div 10), digit n]"

definition pad3 :: "int \<Rightarrow> jsstring" where
  "pad3 n = [digit (n div 100), digit (n div 10), digit n]"

definition pad4 :: "int \<Rightarrow> jsstring" where
  "pad4 n = digit (n div 1000) # pad3 n"

definition pad6 :: "int \<Rightarrow> jsstring" where
  "pad6 n = [digit (n div 100000), digit (n div 10000)] @ pad4 n"

definition yearString :: "int \<Rightarrow> jsstring" where
  "yearString y =
     (if 0 \<le> y \<and> y \<le> 9999 then pad4 y
      else (if y < 0 then js ''-'' else js ''+'') @ pad6 \<bar>y\<bar>)"

definition civil :: "int \<Rightarrow> int \<times> int \<times> int" where
  "civil day =
     (let z = day + 719468;
          era = z div 146097;
          doe = z mod 146097;
          yoe = (doe - doe div 1460 + doe div 36524 - doe div 146096) div 365;
          doy = doe - (365 * yoe + yoe div 4 - yoe div 100);
          mp = (5 * doy + 2) div 153;
          d = doy - (153 * mp + 2) div 5 + 1;
          m = (if mp < 10 then mp + 3 else mp - 9);
          y = yoe + era * 400 + (if m \<le> 2 then 1 else 0)
      in (y, m, d))"

definition toISOString :: "int \<Rightarrow> jsstring" where
  "toISOString tv =
     (let (y, m, d) = civil (tv div 86400000);
          t = tv mod 86400000
      in yearString y @ js ''-'' @ pad2 m @ js ''-'' @ pad2 d @ js ''T''
         @ pad2 (t div 3600000) @ js '':'' @ pad2 (t div 60000 mod 60) @ js '':''
         @ pad2 (t div 1000 mod 60) @ js ''.'' @ pad3 (t mod 1000) @ js ''Z'')"

section \<open>The application state\<close>

text \<open>
  A note is a JavaScript object \<open>{id, title, content, createdAt, updatedAt}\<close>.
  \<open>currentNote\<close> holds a reference to a note object and \<open>saveNote\<close> writes through
  that reference, so object identity is part of the model: \<open>objs\<close> is the table of
  all note objects ever allocated, an object's reference is its index there, and
  \<open>notes_value\<close> (the array \<open>notes.value\<close>) and \<open>currentNote\<close> hold references.
\<close>

record Note =
  note_id :: int
  title :: jsstring
  content :: jsstring
  createdAt :: jsstring
  updatedAt :: jsstring

record state =
  objs :: "Note list"
  notes_value :: "nat list"
  currentNote :: "nat option"
  searchQuery :: jsstring
  showEditor :: bool
  editorTitle :: jsstring
  editorContent :: jsstring
  keydownListener :: bool

datatype error = SyntaxError | TypeError

definition initial :: state where
  "initial = \<lparr>objs = [], notes_value = [], currentNote = None, searchQuery = [],
     showEditor = False, editorTitle = [], editorContent = [],
     keydownListener = False\<rparr>"

definition deref :: "state \<Rightarrow> nat \<Rightarrow> Note" where
  "deref st a = objs st ! a"

text \<open>The collection as the user sees it: the note objects of \<open>notes.value\<close>, in order.\<close>

definition collection :: "state \<Rightarrow> Note list" where
  "collection st = map (deref st) (notes_value st)"

text \<open>Every reference held by the state points into the object table.\<close>

definition refs_ok :: "state \<Rightarrow> bool" where
  "refs_ok st \<longleftrightarrow>
     list_all (\<lambda>a. a < length (objs st)) (notes_value st)
     \<and> (case currentNote st of None \<Rightarrow> True | Some a \<Rightarrow> a < length (objs st))"

section \<open>The operations of App.vue\<close>

text \<open>
  \<open>onMounted\<close>: \<open>savedNotes\<close> is what \<open>localStorage.getItem('notes')\<close> returned
  (\<open>None\<close> for \<open>null\<close>), \<open>parsed\<close> is the outcome of \<open>JSON.parse(savedNotes)\<close>, which
  throws \<open>SyntaxError\<close> on a text that is not JSON. The callback has no handler, so the
  exception leaves it and the registration of the keyboard listener, which follows, is
  not reached; the result pairs the exception, if any, with the state reached. The parsed
  objects are fresh. \<open>keydownListener\<close> records whether \<open>handleKeyboardShortcuts\<close>
  is registered.
\<close>

definition onMounted :: "jsstring option \<Rightarrow> error + Note list \<Rightarrow> state \<Rightarrow> error option \<times> state" where
  "onMounted savedNotes parsed st =
     (let loaded =
        (case savedNotes of
           None \<Rightarrow> Inr st
         | Some s \<Rightarrow>
             if s = [] then Inr st
             else (case parsed of
                     Inl e \<Rightarrow> Inl e
                   | Inr ns \<Rightarrow>
                       Inr (st\<lparr>objs := objs st @ ns,
                              notes_value := [length (objs st) ..< length (objs st) + length ns]\<rparr>)))
      in case loaded of
           Inl e \<Rightarrow> (Some e, st)
         | Inr st' \<Rightarrow> (None, st'\<lparr>keydownListener := True\<rparr>))"

definition onUnmounted :: "state \<Rightarrow> state" where
  "onUnmounted st = st\<lparr>keydownListener := False\<rparr>"

text \<open>
  \<open>filteredNotes\<close>: \<open>toLowerCase\<close> is the host's \<open>String.prototype.toLowerCase\<close>
  (the Unicode lower-case mapping), taken as a parameter.
\<close>

definition filteredNotes :: "(jsstring \<Rightarrow> jsstring) \<Rightarrow> state \<Rightarrow> nat list" where
  "filteredNotes toLowerCase st =
     (if searchQuery st = [] then notes_value st
      else let query = toLowerCase (searchQuery st)
           in filter (\<lambda>a. includes_str (toLowerCase (title (deref st a))) query
                          \<or> includes_str (toLowerCase (content (deref st a))) query)
                (notes_value st))"

definition notesCount :: "state \<Rightarrow> nat" where
  "notesCount st = length (notes_value st)"

definition createNewNote :: "state \<Rightarrow> state" where
  "createNewNote st =
     st\<lparr>editorTitle := [], editorContent := [], currentNote := None, showEditor := True\<rparr>"

definition editNote :: "nat \<Rightarrow> state \<Rightarrow> state" where
  "editNote a st =
     st\<lparr>currentNote := Some a, editorTitle := title (deref st a),
        editorContent := content (deref st a), showEditor := True\<rparr>"

definition closeEditor :: "state \<Rightarrow> state" where
  "closeEditor st =
     st\<lparr>showEditor := False, currentNote := None, editorTitle := [], editorContent := []\<rparr>"

text \<open>
  \<open>saveNote\<close>: \<open>t1\<close>, \<open>t2\<close>, \<open>t3\<close> are the values of the clock at the first, second
  and third time the call reads it (\<open>Date.now()\<close> or \<open>new Date()\<close>, in program order);
  the update branch reads it once, the create branch three times. The first component
  of the result is the message passed to \<open>alert\<close>, if any.
\<close>

definition saveNote :: "int \<Rightarrow> int \<Rightarrow> int \<Rightarrow> state \<Rightarrow> jsstring option \<times> state" where
  "saveNote t1 t2 t3 st =
     (if trim (editorTitle st) = [] then (Some (js ''Please enter a title''), st)
      else (None, closeEditor
        (case currentNote st of
           Some a \<Rightarrow>
             st\<lparr>objs := (objs st)[a := (deref st a)\<lparr>title := editorTitle st,
                    content := editorContent st, updatedAt := toISOString t1\<rparr>]\<rparr>
         | None \<Rightarrow>
             (let newNote = \<lparr>note_id = t1, title = editorTitle st,
                    content = editorContent st, createdAt = toISOString t2,
                    updatedAt = toISOString t3\<rparr>
              in st\<lparr>objs := objs st @ [newNote], notes_value := length (objs st) # notes_value st\<rparr>))))"

text \<open>
  \<open>deleteNote\<close>: \<open>confirmed\<close> is the answer of the \<open>confirm\<close> dialog.
\<close>

definition deleteNote :: "bool \<Rightarrow> int \<Rightarrow> state \<Rightarrow> state" where
  "deleteNote confirmed noteId st =
     (if confirmed then
        (let st' = st\<lparr>notes_value := filter (\<lambda>a. note_id (deref st a) \<noteq> noteId) (notes_value st)\<rparr>
         in if (case currentNote st' of None \<Rightarrow> False
                | Some a \<Rightarrow> note_id (deref st' a) = noteId)
            then closeEditor st' else st')
      else st)"

text \<open>
  \<open>applyFormat\<close>: \<open>textarea\<close> is what \<open>document.querySelector('.editor-content')\<close>
  found, \<open>None\<close> for \<open>null\<close> (reading \<open>selectionStart\<close> of it throws \<open>TypeError\<close>),
  otherwise the element's \<open>selectionStart\<close> and \<open>selectionEnd\<close>. A format that no
  \<open>case\<close> matches leaves \<open>formattedText\<close> empty. The bullet literal of the source
  file is the three code units U+201A, U+00C4, U+00A2 and a space.
\<close>

definition applyFormat :: "jsstring \<Rightarrow> (nat \<times> nat) option \<Rightarrow> state \<Rightarrow> error option \<times> state" where
  "applyFormat format textarea st =
     (case textarea of
        None \<Rightarrow> (Some TypeError, st)
      | Some (start, end') \<Rightarrow>
          (let selectedText = substring (editorContent st) start end';
               formattedText =
                 (if format = js ''bold'' then js ''**'' @ selectedText @ js ''**''
                  else if format = js ''italic'' then js ''*'' @ selectedText @ js ''*''
                  else if format = js ''heading'' then js ''# '' @ selectedText
                  else if format = js ''bullet'' then [8218, 196, 162, 32] @ selectedText
                  else [])
           in (None, st\<lparr>editorContent :=
                 substring (editorContent st) 0 start @ formattedText
                 @ substringFrom (editorContent st) end'\<rparr>)))"

section \<open>Example inputs\<close>

text \<open>
  The small form of a Basic Latin capital; any other code unit is left as it is. On a
  text of code units below 128 the host's \<open>toLowerCase\<close> is this mapping, applied to
  every code unit.
\<close>

definition lowerUnit :: "nat \<Rightarrow> nat" where
  "lowerUnit c = (if 65 \<le> c \<and> c \<le> 90 then c + 32 else c)"

definition lowerBasicLatin :: "jsstring \<Rightarrow> jsstring" where
  "lowerBasicLatin s = map lowerUnit s"

text \<open>
  The host's \<open>toLowerCase\<close> on texts made of Basic Latin letters, Greek letters and
  spaces. Every capital becomes its small letter, except that a capital sigma (U+03A3)
  that has a letter before it and no letter after it becomes the final sigma U+03C2
  and not U+03C3: Unicode's Final_Sigma condition, which the host applies. Such texts
  hold no case-ignorable character, so the letters looked at are the neighbours.
\<close>

definition casedLetter :: "nat \<Rightarrow> bool" where
  "casedLetter c \<longleftrightarrow>
     (65 \<le> c \<and> c \<le> 90) \<or> (97 \<le> c \<and> c \<le> 122)
     \<or> (913 \<le> c \<and> c \<le> 937 \<and> c \<noteq> 930) \<or> (945 \<le> c \<and> c \<le> 969)"

definition lowerLetter :: "nat \<Rightarrow> nat" where
  "lowerLetter c =
     (if (65 \<le> c \<and> c \<le> 90) \<or> (913 \<le> c \<and> c \<le> 937 \<and> c \<noteq> 930) then c + 32 else c)"

fun lowerAfter :: "bool \<Rightarrow> jsstring \<Rightarrow> jsstring" where
  "lowerAfter afterLetter [] = []"
| "lowerAfter afterLetter (c # s) =
     (if c = 931 \<and> afterLetter \<and> \<not> (case s of [] \<Rightarrow> False | d # _ \<Rightarrow> casedLetter d)
      then 962 else lowerLetter c) # lowerAfter (casedLetter c) s"

definition lowerFinalSigma :: "jsstring \<Rightarrow> jsstring" where
  "lowerFinalSigma s = lowerAfter False s"

text \<open>
  A note titled with the Greek capitals of KOSMOS (kappa, omicron, sigma, mu, omicron,
  sigma), and the state in which it is the only note and the user has typed its first
  three letters into the search field.
\<close>

definition kosmos :: Note where
  "kosmos = \<lparr>note_id = 1704067200000, title = [922, 927, 931, 924, 927, 931],
     content = [], createdAt = js ''2024-01-01T00:00:00.000Z'',
     updatedAt = js ''2024-01-01T00:00:00.000Z''\<rparr>"

definition kosmosSearch :: state where
  "kosmosSearch = initial\<lparr>objs := [kosmos], notes_value := [0], searchQuery := [922, 927, 931]\<rparr>"

definition groceries :: Note where
  "groceries = \<lparr>note_id = 1704067200000, title = js ''Groceries'',
     content = js ''milk eggs bread'', createdAt = js ''2024-01-01T00:00:00.000Z'',
     updatedAt = js ''2024-01-01T00:00:00.000Z''\<rparr>"

definition todo :: Note where
  "todo = \<lparr>note_id = 1704067260000, title = js ''Todo'',
     content = js ''call Bob'', createdAt = js ''2024-01-01T00:01:00.000Z'',
     updatedAt = js ''2024-01-01T00:01:00.000Z''\<rparr>"

text \<open>Two notes, \<open>todo\<close> created after \<open>groceries\<close>; the editor is closed.\<close>

definition twoNotes :: state where
  "twoNotes = initial\<lparr>objs := [groceries, todo], notes_value := [1, 0]\<rparr>"

section \<open>The specification's vocabulary\<close>

text \<open>
  The specification's words for the filter. Two code units are the same up to case when
  they are equal or are the capital and the small form of one Basic Latin letter. A text
  contains the query as a case-insensitive substring when some contiguous block of the
  text has the length of the query and agrees with it, code unit by code unit, up to
  case. Neither definition mentions \<open>toLowerCase\<close>. Beyond Basic Latin the relation
  compares code units as they are, so there it only says that a text which contains
  the query itself contains it.
\<close>

definition sameLetter :: "nat \<Rightarrow> nat \<Rightarrow> bool" where
  "sameLetter c d \<longleftrightarrow>
     c = d \<or> (65 \<le> c \<and> c \<le> 90 \<and> d = c + 32) \<or> (65 \<le> d \<and> d \<le> 90 \<and> c = d + 32)"

definition contains_ignoring_case :: "jsstring \<Rightarrow> jsstring \<Rightarrow> bool" where
  "contains_ignoring_case text q \<longleftrightarrow>
     (\<exists>ps m ss. text = ps @ m @ ss \<and> list_all2 sameLetter m q)"

text \<open>
  A Basic Latin text that \<open>toLowerCase\<close> lower-cases code unit by code unit, as the
  host's does with every Basic Latin text.
\<close>

definition unitwise :: "(jsstring \<Rightarrow> jsstring) \<Rightarrow> jsstring \<Rightarrow> bool" where
  "unitwise toLowerCase s \<longleftrightarrow> list_all (\<lambda>c. c < 128) s \<and> toLowerCase s = map lowerUnit s"

text \<open>
  The specification's \<open>create(title, content)\<close> is the user's path through the
  code: New Note, typing into the two bound fields, Save. A request carries the title,
  the content and the three clock readings of its save.
\<close>

type_synonym request = "jsstring \<times> jsstring \<times> int \<times> int \<times> int"

definition create :: "request \<Rightarrow> state \<Rightarrow> state" where
  "create r st =
     (case r of (ttl, body, t1, t2, t3) \<Rightarrow>
        snd (saveNote t1 t2 t3 ((createNewNote st)\<lparr>editorTitle := ttl, editorContent := body\<rparr>)))"

fun creates :: "request list \<Rightarrow> state \<Rightarrow> state" where
  "creates [] st = st"
| "creates (r # rs) st = creates rs (create r st)"

definition reading :: "request \<Rightarrow> int" where
  "reading r = (case r of (ttl, body, t1, t2, t3) \<Rightarrow> t1)"

definition nonblank :: "request \<Rightarrow> bool" where
  "nonblank r \<longleftrightarrow> trim (fst r) \<noteq> []"

text \<open>
  Example inputs: the state after one note was created at the clock reading
  1704067200000, and the editor then opened for a second note titled B.
\<close>

definition afterFirst :: state where
  "afterFirst = create (js ''A'', [], 1704067200000, 1704067200000, 1704067200000) initial"

definition draftB :: state where
  "draftB = (createNewNote afterFirst)\<lparr>editorTitle := js ''B''\<rparr>"

text \<open>
  The editor opened on \<open>groceries\<close> with one word added to the content; the editor
  opened for a new note, and on \<open>groceries\<close>, with a title typed with spaces around it.
\<close>

definition editingGroceries :: state where
  "editingGroceries = (editNote 0 twoNotes)\<lparr>editorContent := js ''milk eggs bread cheese''\<rparr>"

definition paddedNew :: state where
  "paddedNew = (createNewNote twoNotes)\<lparr>editorTitle := js '' Milk ''\<rparr>"

definition paddedEdit :: state where
  "paddedEdit = (editNote 0 twoNotes)\<lparr>editorTitle := js '' Milk ''\<rparr>"

text \<open>
  The editor opened on \<open>groceries\<close>, and a new draft whose content is the
  specification's sample sentence.
\<close>

definition openOnGroceries :: state where
  "openOnGroceries = editNote 0 twoNotes"

definition catDraft :: state where
  "catDraft = (createNewNote initial)\<lparr>editorContent := js ''the cat sat''\<rparr>"

section \<open>The states the application reaches\<close>

text \<open>
  The handlers as the template wires them: the component starts in \<open>initial\<close> and is
  mounted once; the note cards pass \<open>editNote\<close> a note of the list shown, which is a
  note of \<open>notes.value\<close>; the three \<open>v-model\<close> bindings assign what the user types.
\<close>

inductive reachable :: "state \<Rightarrow> bool" where
  start: "reachable initial"
| mount: "reachable (snd (onMounted savedNotes parsed initial))"
| unmount: "reachable st \<Longrightarrow> reachable (onUnmounted st)"
| new: "reachable st \<Longrightarrow> reachable (createNewNote st)"
| edit: "reachable st \<Longrightarrow> a \<in> set (notes_value st) \<Longrightarrow> reachable (editNote a st)"
| typeTitle: "reachable st \<Longrightarrow> reachable (st\<lparr>editorTitle := s\<rparr>)"
| typeContent: "reachable st \<Longrightarrow> reachable (st\<lparr>editorContent := s\<rparr>)"
| typeQuery: "reachable st \<Longrightarrow> reachable (st\<lparr>searchQuery := s\<rparr>)"
| save: "reachable st \<Longrightarrow> reachable (snd (saveNote t1 t2 t3 st))"
| delete: "reachable st \<Longrightarrow> reachable (deleteNote confirmed noteId st)"
| close: "reachable st \<Longrightarrow> reachable (closeEditor st)"
| format: "reachable st \<Longrightarrow> reachable (snd (applyFormat fmt textarea st))"

text \<open>
  What holds of every such state: the references are valid, no object is listed twice,
  and the note the editor is open on is a note of the collection.
\<close>

definition session_ok :: "state \<Rightarrow> bool" where
  "session_ok st \<longleftrightarrow>
     refs_ok st \<and> distinct (notes_value st)
     \<and> (case currentNote st of None \<Rightarrow> True | Some a \<Rightarrow> a \<in> set (notes_value st))"

section \<open>Facts about the host functions\<close>

lemma trim_empty_iff: "trim s = [] \<longleftrightarrow> (\<forall>c\<in>set s. isWhiteSpace c)"
proof
  assume "trim s = []"
  then have all: "\<forall>c\<in>set (dropWhile isWhiteSpace s). isWhiteSpace c"
    by (simp add: trim_def)
  have "dropWhile isWhiteSpace s = []"
  proof (rule ccontr)
    assume ne: "dropWhile isWhiteSpace s \<noteq> []"
    then have "\<not> isWhiteSpace (hd (dropWhile isWhiteSpace s))"
      by (rule hd_dropWhile)
    moreover from ne have "hd (dropWhile isWhiteSpace s) \<in> set (dropWhile isWhiteSpace s)"
      by simp
    ultimately show False using all by blast
  qed
  then show "\<forall>c\<in>set s. isWhiteSpace c"
    by simp
next
  assume "\<forall>c\<in>set s. isWhiteSpace c"
  then have d: "dropWhile isWhiteSpace s = []"
    by simp
  show "trim s = []"
    unfolding trim_def d by simp
qed

lemma includes_str_sublist: "includes_str s q \<longleftrightarrow> sublist q s"
  by (induction s) (simp_all add: sublist_Cons_right)

lemma includes_str_iff: "includes_str s q \<longleftrightarrow> (\<exists>ps ss. s = ps @ q @ ss)"
  by (simp add: includes_str_sublist sublist_def)

lemma substring_in_range:
  assumes "a \<le> b" and "b \<le> length s"
  shows "substring s a b = take (b - a) (drop a s)"
  using assms by (simp add: substring_def Let_def min_def max_def)

lemma substring_zero: "a \<le> length s \<Longrightarrow> substring s 0 a = take a s"
  by (simp add: substring_def Let_def min_def max_def)

lemma substringFrom_in_range: "a \<le> length s \<Longrightarrow> substringFrom s a = drop a s"
  by (simp add: substringFrom_def substring_def Let_def min_def max_def)

section \<open>The state after each operation\<close>

lemma closeEditor_fields [simp]:
  "objs (closeEditor st) = objs st"
  "notes_value (closeEditor st) = notes_value st"
  "currentNote (closeEditor st) = None"
  "searchQuery (closeEditor st) = searchQuery st"
  "showEditor (closeEditor st) = False"
  "editorTitle (closeEditor st) = []"
  "editorContent (closeEditor st) = []"
  "keydownListener (closeEditor st) = keydownListener st"
  by (simp_all add: closeEditor_def)

lemma deref_closeEditor [simp]: "deref (closeEditor st) a = deref st a"
  by (simp add: deref_def)

lemma collection_closeEditor [simp]: "collection (closeEditor st) = collection st"
  by (simp add: collection_def)

lemma refs_ok_closeEditor: "refs_ok st \<Longrightarrow> refs_ok (closeEditor st)"
  by (simp add: refs_ok_def)

lemma refs_ok_notes: "refs_ok st \<Longrightarrow> a \<in> set (notes_value st) \<Longrightarrow> a < length (objs st)"
  by (simp add: refs_ok_def list_all_iff)

lemma refs_ok_current: "refs_ok st \<Longrightarrow> currentNote st = Some a \<Longrightarrow> a < length (objs st)"
  by (simp add: refs_ok_def)

lemma refs_ok_initial: "refs_ok initial"
  by (simp add: refs_ok_def initial_def)

section \<open>Saving with a blank title\<close>

text \<open>
  C1. Whatever the collection and whatever the mode (\<open>currentNote\<close> null or a note),
  when the draft title is empty after trimming, \<open>saveNote\<close> raises the
  'Please enter a title' alert, which is its validation error, and returns at once: the
  state after the call is the state before it, so no note is added to the collection
  and no note object has its title, content or updatedAt changed.
\<close>

theorem saveNote_blank_title_rejected:
  assumes "trim (editorTitle st) = []"
  shows "fst (saveNote t1 t2 t3 st) = Some (js ''Please enter a title'')
     \<and> snd (saveNote t1 t2 t3 st) = st
     \<and> collection (snd (saveNote t1 t2 t3 st)) = collection st
     \<and> objs (snd (saveNote t1 t2 t3 st)) = objs st"
  using assms by (simp add: saveNote_def)

theorem saveNote_blank_title_rejected_witness:
  "trim (editorTitle (createNewNote twoNotes\<lparr>editorTitle := js ''   ''\<rparr>)) = []
   \<and> currentNote (createNewNote twoNotes\<lparr>editorTitle := js ''   ''\<rparr>) = None
   \<and> snd (saveNote 1704067320000 1704067320000 1704067320000
        (createNewNote twoNotes\<lparr>editorTitle := js ''   ''\<rparr>))
      = createNewNote twoNotes\<lparr>editorTitle := js ''   ''\<rparr>
   \<and> trim (editorTitle (editNote 0 twoNotes\<lparr>editorTitle := []\<rparr>)) = []
   \<and> currentNote (editNote 0 twoNotes\<lparr>editorTitle := []\<rparr>) = Some 0
   \<and> collection (snd (saveNote 1704067320000 1704067320000 1704067320000
        (editNote 0 twoNotes\<lparr>editorTitle := []\<rparr>))) = [todo, groceries]"
proof -
  have blank: "trim (editorTitle (createNewNote twoNotes\<lparr>editorTitle := js ''   ''\<rparr>)) = []"
    by (simp add: trim_empty_iff isWhiteSpace_def js_def)
  have empty: "trim (editorTitle (editNote 0 twoNotes\<lparr>editorTitle := []\<rparr>)) = []"
    by (simp add: trim_empty_iff)
  have mode1: "currentNote (createNewNote twoNotes\<lparr>editorTitle := js ''   ''\<rparr>) = None"
    by (simp add: createNewNote_def)
  have mode2: "currentNote (editNote 0 twoNotes\<lparr>editorTitle := []\<rparr>) = Some 0"
    by (simp add: editNote_def)
  have coll: "collection (editNote 0 twoNotes\<lparr>editorTitle := []\<rparr>) = [todo, groceries]"
    by (simp add: collection_def deref_def editNote_def twoNotes_def)
  from saveNote_blank_title_rejected [OF blank] saveNote_blank_title_rejected [OF empty]
    blank empty mode1 mode2 coll
  show ?thesis by simp
qed

section \<open>The filtered view\<close>

lemma sameLetter_lowerUnit: "sameLetter c d \<longleftrightarrow> lowerUnit c = lowerUnit d"
  by (auto simp: sameLetter_def lowerUnit_def)

lemma list_all2_sameLetter: "list_all2 sameLetter m q \<longleftrightarrow> map lowerUnit m = map lowerUnit q"
proof
  assume "list_all2 sameLetter m q"
  then show "map lowerUnit m = map lowerUnit q"
    by (induction rule: list_all2_induct) (simp_all add: sameLetter_lowerUnit)
next
  assume "map lowerUnit m = map lowerUnit q"
  then show "list_all2 sameLetter m q"
  proof (induction m arbitrary: q)
    case Nil
    then show ?case by simp
  next
    case (Cons c m)
    then obtain d q' where q: "q = d # q'"
      by (cases q) auto
    with Cons show ?case
      by (simp add: sameLetter_lowerUnit)
  qed
qed

text \<open>
  A block of a mapped text is the image of a block of the text.
\<close>

lemma block_of_map:
  "(\<exists>ps ss. map f text = ps @ map f q @ ss) \<longleftrightarrow> (\<exists>ps m ss. text = ps @ m @ ss \<and> map f m = map f q)"
proof
  assume "\<exists>ps ss. map f text = ps @ map f q @ ss"
  then obtain ps ss where "map f text = ps @ map f q @ ss"
    by blast
  then obtain ps' r where r: "text = ps' @ r" "map f r = map f q @ ss"
    by (metis map_eq_append_conv)
  from r(2) obtain m ss' where "r = m @ ss'" "map f m = map f q"
    by (metis map_eq_append_conv)
  with r show "\<exists>ps m ss. text = ps @ m @ ss \<and> map f m = map f q"
    by blast
next
  assume "\<exists>ps m ss. text = ps @ m @ ss \<and> map f m = map f q"
  then obtain ps m ss where "text = ps @ m @ ss" "map f m = map f q"
    by blast
  then have "map f text = map f ps @ map f q @ map f ss"
    by simp
  then show "\<exists>ps ss. map f text = ps @ map f q @ ss"
    by blast
qed

lemma contains_ignoring_case_lowered:
  "contains_ignoring_case text q \<longleftrightarrow> includes_str (map lowerUnit text) (map lowerUnit q)"
  by (simp add: contains_ignoring_case_def list_all2_sameLetter includes_str_iff block_of_map)

lemma unitwise_match:
  assumes "unitwise toLowerCase text" and "unitwise toLowerCase q"
  shows "includes_str (toLowerCase text) (toLowerCase q) \<longleftrightarrow> contains_ignoring_case text q"
  using assms by (simp add: unitwise_def contains_ignoring_case_lowered)

text \<open>
  C2, as the code has it. For every state: with the empty query \<open>filteredNotes\<close> is
  the array \<open>notes.value\<close> itself, in its order, and with any query its result is a
  subsequence of that array. With a non-empty query the notes it returns are exactly
  the notes of the collection, each as often and in the order the collection has them,
  of which the lower-cased title or the lower-cased content has the lower-cased query
  as a contiguous block, lower-casing being the host's \<open>toLowerCase\<close>. When the query
  and every title and content are Basic Latin texts, which \<open>toLowerCase\<close> lower-cases
  code unit by code unit, these are exactly the notes whose title or content contains
  the query as a case-insensitive substring.
\<close>

theorem filteredNotes_lowercased_match:
  "(searchQuery st = [] \<longrightarrow> filteredNotes toLowerCase st = notes_value st)
   \<and> subseq (filteredNotes toLowerCase st) (notes_value st)
   \<and> (searchQuery st \<noteq> [] \<longrightarrow>
        map (deref st) (filteredNotes toLowerCase st)
        = filter (\<lambda>n. (\<exists>ps ss. toLowerCase (title n) = ps @ toLowerCase (searchQuery st) @ ss)
                     \<or> (\<exists>ps ss. toLowerCase (content n) = ps @ toLowerCase (searchQuery st) @ ss))
            (collection st))
   \<and> (searchQuery st \<noteq> [] \<and> unitwise toLowerCase (searchQuery st)
        \<and> list_all (\<lambda>n. unitwise toLowerCase (title n) \<and> unitwise toLowerCase (content n))
             (collection st) \<longrightarrow>
        map (deref st) (filteredNotes toLowerCase st)
        = filter (\<lambda>n. contains_ignoring_case (title n) (searchQuery st)
                     \<or> contains_ignoring_case (content n) (searchQuery st))
            (collection st))"
proof -
  have sub: "subseq (filteredNotes toLowerCase st) (notes_value st)"
    by (simp add: filteredNotes_def Let_def)
  have code: "map (deref st) (filteredNotes toLowerCase st)
        = filter (\<lambda>n. includes_str (toLowerCase (title n)) (toLowerCase (searchQuery st))
                     \<or> includes_str (toLowerCase (content n)) (toLowerCase (searchQuery st)))
            (collection st)" if "searchQuery st \<noteq> []"
    using that
    by (simp add: filteredNotes_def Let_def collection_def filter_map comp_def)
  have blocks: "map (deref st) (filteredNotes toLowerCase st)
        = filter (\<lambda>n. (\<exists>ps ss. toLowerCase (title n) = ps @ toLowerCase (searchQuery st) @ ss)
                     \<or> (\<exists>ps ss. toLowerCase (content n) = ps @ toLowerCase (searchQuery st) @ ss))
            (collection st)" if "searchQuery st \<noteq> []"
    using code [OF that] by (simp add: includes_str_iff)
  have plain: "map (deref st) (filteredNotes toLowerCase st)
        = filter (\<lambda>n. contains_ignoring_case (title n) (searchQuery st)
                     \<or> contains_ignoring_case (content n) (searchQuery st))
            (collection st)"
    if ne: "searchQuery st \<noteq> []" and q: "unitwise toLowerCase (searchQuery st)"
      and ns: "list_all (\<lambda>n. unitwise toLowerCase (title n) \<and> unitwise toLowerCase (content n))
             (collection st)"
  proof -
    have "filter (\<lambda>n. includes_str (toLowerCase (title n)) (toLowerCase (searchQuery st))
                     \<or> includes_str (toLowerCase (content n)) (toLowerCase (searchQuery st)))
            (collection st)
        = filter (\<lambda>n. contains_ignoring_case (title n) (searchQuery st)
                     \<or> contains_ignoring_case (content n) (searchQuery st))
            (collection st)"
    proof (rule filter_cong [OF refl])
      fix n
      assume "n \<in> set (collection st)"
      with ns have "unitwise toLowerCase (title n)" "unitwise toLowerCase (content n)"
        by (simp_all add: list_all_iff)
      then show "(includes_str (toLowerCase (title n)) (toLowerCase (searchQuery st))
                     \<or> includes_str (toLowerCase (content n)) (toLowerCase (searchQuery st)))
          = (contains_ignoring_case (title n) (searchQuery st)
                     \<or> contains_ignoring_case (content n) (searchQuery st))"
        by (simp add: unitwise_match q)
    qed
    with code [OF ne] show ?thesis
      by simp
  qed
  have "searchQuery st = [] \<longrightarrow> filteredNotes toLowerCase st = notes_value st"
    by (simp add: filteredNotes_def)
  with sub blocks plain show ?thesis
    by blast
qed

lemma lowerBasicLatin_unitwise: "list_all (\<lambda>c. c < 128) s \<Longrightarrow> unitwise lowerBasicLatin s"
  by (simp add: unitwise_def lowerBasicLatin_def)

lemma example_texts_unitwise:
  "unitwise lowerBasicLatin (js ''EGGS'')"
  "unitwise lowerBasicLatin (title todo)" "unitwise lowerBasicLatin (content todo)"
  "unitwise lowerBasicLatin (title groceries)" "unitwise lowerBasicLatin (content groceries)"
  by (rule lowerBasicLatin_unitwise, simp add: js_def todo_def groceries_def)+

lemma example_matches:
  "\<not> contains_ignoring_case (title todo) (js ''EGGS'')"
  "\<not> contains_ignoring_case (content todo) (js ''EGGS'')"
  "contains_ignoring_case (content groceries) (js ''EGGS'')"
  by (simp_all add: contains_ignoring_case_lowered todo_def groceries_def lowerUnit_def js_def)

theorem filteredNotes_lowercased_match_witness:
  "searchQuery (twoNotes\<lparr>searchQuery := js ''EGGS''\<rparr>) \<noteq> []
   \<and> unitwise lowerBasicLatin (searchQuery (twoNotes\<lparr>searchQuery := js ''EGGS''\<rparr>))
   \<and> collection (twoNotes\<lparr>searchQuery := js ''EGGS''\<rparr>) = [todo, groceries]
   \<and> unitwise lowerBasicLatin (title todo) \<and> unitwise lowerBasicLatin (content todo)
   \<and> unitwise lowerBasicLatin (title groceries) \<and> unitwise lowerBasicLatin (content groceries)
   \<and> contains_ignoring_case (content groceries) (js ''EGGS'')
   \<and> map (deref (twoNotes\<lparr>searchQuery := js ''EGGS''\<rparr>))
        (filteredNotes lowerBasicLatin (twoNotes\<lparr>searchQuery := js ''EGGS''\<rparr>))
      = [groceries]
   \<and> searchQuery twoNotes = []
   \<and> filteredNotes lowerBasicLatin twoNotes = [1, 0]"
proof -
  have q: "searchQuery (twoNotes\<lparr>searchQuery := js ''EGGS''\<rparr>) \<noteq> []"
    by (simp add: js_def)
  have e: "searchQuery twoNotes = []"
    by (simp add: twoNotes_def initial_def)
  have c: "collection (twoNotes\<lparr>searchQuery := js ''EGGS''\<rparr>) = [todo, groceries]"
    by (simp add: collection_def deref_def twoNotes_def)
  have n: "notes_value twoNotes = [1, 0]"
    by (simp add: twoNotes_def)
  have hyp: "searchQuery (twoNotes\<lparr>searchQuery := js ''EGGS''\<rparr>) \<noteq> []
      \<and> unitwise lowerBasicLatin (searchQuery (twoNotes\<lparr>searchQuery := js ''EGGS''\<rparr>))
      \<and> list_all (\<lambda>n. unitwise lowerBasicLatin (title n) \<and> unitwise lowerBasicLatin (content n))
            (collection (twoNotes\<lparr>searchQuery := js ''EGGS''\<rparr>))"
    using q example_texts_unitwise by (simp add: c)
  from filteredNotes_lowercased_match [of "twoNotes\<lparr>searchQuery := js ''EGGS''\<rparr>" lowerBasicLatin]
    hyp
  have "map (deref (twoNotes\<lparr>searchQuery := js ''EGGS''\<rparr>))
        (filteredNotes lowerBasicLatin (twoNotes\<lparr>searchQuery := js ''EGGS''\<rparr>))
      = filter (\<lambda>n. contains_ignoring_case (title n) (searchQuery (twoNotes\<lparr>searchQuery := js ''EGGS''\<rparr>))
                   \<or> contains_ignoring_case (content n) (searchQuery (twoNotes\<lparr>searchQuery := js ''EGGS''\<rparr>)))
          (collection (twoNotes\<lparr>searchQuery := js ''EGGS''\<rparr>))"
    by blast
  then have found: "map (deref (twoNotes\<lparr>searchQuery := js ''EGGS''\<rparr>))
        (filteredNotes lowerBasicLatin (twoNotes\<lparr>searchQuery := js ''EGGS''\<rparr>))
      = [groceries]"
    using example_matches by (simp add: c)
  from filteredNotes_lowercased_match [of twoNotes lowerBasicLatin] e
  have "filteredNotes lowerBasicLatin twoNotes = notes_value twoNotes"
    by blast
  with found hyp c e n example_texts_unitwise example_matches show ?thesis
    by simp
qed

text \<open>
  With the host's lower-casing the claim as the specification states it fails. The
  title of \<open>kosmos\<close> begins with the query, letter for letter, so it contains the query
  as a substring whatever the case; but the sigma that ends the query becomes the final
  sigma, the same sigma inside the title does not, and \<open>filteredNotes\<close> returns nothing.
\<close>

theorem filteredNotes_final_sigma_counterexample:
  "searchQuery kosmosSearch \<noteq> []
   \<and> collection kosmosSearch = [kosmos]
   \<and> title kosmos = searchQuery kosmosSearch @ [924, 927, 931]
   \<and> contains_ignoring_case (title kosmos) (searchQuery kosmosSearch)
   \<and> lowerFinalSigma (title kosmos) = [954, 959, 963, 956, 959, 962]
   \<and> lowerFinalSigma (searchQuery kosmosSearch) = [954, 959, 962]
   \<and> filteredNotes lowerFinalSigma kosmosSearch = []"
proof -
  have q: "searchQuery kosmosSearch = [922, 927, 931]"
    by (simp add: kosmosSearch_def)
  have t: "title kosmos = [922, 927, 931, 924, 927, 931]" and b: "content kosmos = []"
    by (simp_all add: kosmos_def)
  have c: "collection kosmosSearch = [kosmos]"
    by (simp add: collection_def deref_def kosmosSearch_def)
  have lt: "lowerFinalSigma [922, 927, 931, 924, 927, 931] = [954, 959, 963, 956, 959, 962]"
    by (simp add: lowerFinalSigma_def lowerLetter_def casedLetter_def)
  have lq: "lowerFinalSigma [922, 927, 931] = [954, 959, 962]"
    by (simp add: lowerFinalSigma_def lowerLetter_def casedLetter_def)
  have lb: "lowerFinalSigma [] = []"
    by (simp add: lowerFinalSigma_def)
  have "list_all2 sameLetter [922, 927, 931] [922, 927, 931]"
    by (simp add: sameLetter_def)
  then have "\<exists>ps m ss. [922, 927, 931, 924, 927, 931] = ps @ m @ ss
      \<and> list_all2 sameLetter m [922, 927, 931]"
    by (intro exI [of _ "[]"] exI [of _ "[922, 927, 931]"] exI [of _ "[924, 927, 931]"]) simp
  then have inside: "contains_ignoring_case (title kosmos) (searchQuery kosmosSearch)"
    by (simp add: contains_ignoring_case_def q t)
  have "filteredNotes lowerFinalSigma kosmosSearch = []"
    by (simp add: filteredNotes_def Let_def kosmosSearch_def deref_def t b lt lq lb)
  with inside c show ?thesis
    by (simp add: q t lt lq)
qed

section \<open>Saving a draft\<close>

lemma saveNote_create:
  assumes "trim (editorTitle st) \<noteq> []" and "currentNote st = None"
  shows "saveNote t1 t2 t3 st =
     (None, closeEditor (st\<lparr>objs := objs st @ [\<lparr>note_id = t1, title = editorTitle st,
          content = editorContent st, createdAt = toISOString t2,
          updatedAt = toISOString t3\<rparr>],
        notes_value := length (objs st) # notes_value st\<rparr>))"
  using assms by (simp add: saveNote_def)

lemma saveNote_update:
  assumes "trim (editorTitle st) \<noteq> []" and "currentNote st = Some a"
  shows "saveNote t1 t2 t3 st =
     (None, closeEditor (st\<lparr>objs := (objs st)[a := (deref st a)\<lparr>title := editorTitle st,
          content := editorContent st, updatedAt := toISOString t1\<rparr>]\<rparr>))"
  using assms by (simp add: saveNote_def)

lemma map_nth_append_old:
  assumes "\<forall>a\<in>set as. a < length xs"
  shows "map (\<lambda>a. (xs @ ys) ! a) as = map (\<lambda>a. xs ! a) as"
  using assms by (simp add: nth_append)

lemma collection_after_create:
  assumes "refs_ok st" and "trim (editorTitle st) \<noteq> []" and "currentNote st = None"
  shows "collection (snd (saveNote t1 t2 t3 st)) =
     \<lparr>note_id = t1, title = editorTitle st, content = editorContent st,
        createdAt = toISOString t2, updatedAt = toISOString t3\<rparr> # collection st"
proof -
  have old: "\<forall>a\<in>set (notes_value st). a < length (objs st)"
    using assms(1) by (simp add: refs_ok_def list_all_iff)
  show ?thesis
    using map_nth_append_old [OF old]
    by (simp add: saveNote_create [OF assms(2,3)] collection_def deref_def)
qed

lemma refs_ok_after_save:
  assumes "refs_ok st"
  shows "refs_ok (snd (saveNote t1 t2 t3 st))"
proof (cases "trim (editorTitle st) = []")
  case True
  then show ?thesis using assms by (simp add: saveNote_def)
next
  case False
  show ?thesis
  proof (cases "currentNote st")
    case None
    have "\<forall>a\<in>set (notes_value st). a < Suc (length (objs st))"
      using assms by (auto simp: refs_ok_def list_all_iff)
    then show ?thesis
      by (simp add: saveNote_create [OF False None] refs_ok_def list_all_iff)
  next
    case (Some a)
    then show ?thesis
      using assms by (simp add: saveNote_update [OF False Some] refs_ok_def)
  qed
qed

text \<open>
  C3, as the code has it. For every state whose references are valid and every draft
  whose title is non-empty after trimming, a save in create mode raises no alert and
  prepends one note to the collection, leaving every note object that existed as it
  was. The new note carries the draft's title and content; its id is the value
  \<open>Date.now()\<close> returned, its createdAt and updatedAt are the ISO renderings of the
  two clock readings taken after that one. The id is therefore fresh exactly when no
  note of the collection has that reading for id, and the two timestamps are equal
  when the two readings are.
\<close>

theorem saveNote_create_prepends:
  assumes "refs_ok st" and "currentNote st = None" and "trim (editorTitle st) \<noteq> []"
  shows "fst (saveNote t1 t2 t3 st) = None
     \<and> collection (snd (saveNote t1 t2 t3 st)) =
         \<lparr>note_id = t1, title = editorTitle st, content = editorContent st,
            createdAt = toISOString t2, updatedAt = toISOString t3\<rparr> # collection st
     \<and> (\<forall>a < length (objs st). deref (snd (saveNote t1 t2 t3 st)) a = deref st a)
     \<and> (distinct (map note_id (collection (snd (saveNote t1 t2 t3 st))))
          \<longleftrightarrow> t1 \<notin> set (map note_id (collection st)) \<and> distinct (map note_id (collection st)))
     \<and> (t2 = t3 \<longrightarrow> createdAt (hd (collection (snd (saveNote t1 t2 t3 st))))
                     = updatedAt (hd (collection (snd (saveNote t1 t2 t3 st)))))"
proof -
  note c = collection_after_create [OF assms(1,3,2), of t1 t2 t3]
  have "\<forall>a < length (objs st). deref (snd (saveNote t1 t2 t3 st)) a = deref st a"
    by (simp add: saveNote_create [OF assms(3,2)] deref_def nth_append)
  moreover have "fst (saveNote t1 t2 t3 st) = None"
    by (simp add: saveNote_create [OF assms(3,2)])
  moreover have "t2 = t3 \<longrightarrow> createdAt (hd (collection (snd (saveNote t1 t2 t3 st))))
                     = updatedAt (hd (collection (snd (saveNote t1 t2 t3 st))))"
    unfolding c by simp
  moreover have "distinct (map note_id (collection (snd (saveNote t1 t2 t3 st))))
          \<longleftrightarrow> t1 \<notin> set (map note_id (collection st)) \<and> distinct (map note_id (collection st))"
    unfolding c by simp
  ultimately show ?thesis
    using c by blast
qed

lemma iso_first: "toISOString 1704067200000 = js ''2024-01-01T00:00:00.000Z''"
  by code_simp

lemma iso_next: "toISOString 1704067200001 = js ''2024-01-01T00:00:00.001Z''"
  by code_simp

lemma nonblank_A: "trim (js ''A'') \<noteq> []"
  by (simp add: trim_empty_iff isWhiteSpace_def js_def)

lemma nonblank_B: "trim (js ''B'') \<noteq> []"
  by (simp add: trim_empty_iff isWhiteSpace_def js_def)

lemma afterFirst_eq:
  "afterFirst = initial\<lparr>objs := [\<lparr>note_id = 1704067200000, title = js ''A'', content = [],
       createdAt = js ''2024-01-01T00:00:00.000Z'',
       updatedAt = js ''2024-01-01T00:00:00.000Z''\<rparr>], notes_value := [0]\<rparr>"
  using nonblank_A
  by (simp add: afterFirst_def create_def saveNote_def createNewNote_def closeEditor_def
      initial_def iso_first)

lemma refs_ok_afterFirst: "refs_ok afterFirst"
  by (simp add: afterFirst_eq refs_ok_def initial_def)

lemma draftB_fields:
  "refs_ok draftB" "currentNote draftB = None" "trim (editorTitle draftB) \<noteq> []"
  "collection draftB = collection afterFirst" "editorTitle draftB = js ''B''"
  "editorContent draftB = []"
  using nonblank_B refs_ok_afterFirst
  by (simp_all add: draftB_def createNewNote_def refs_ok_def collection_def deref_def)

lemma collection_afterFirst:
  "collection afterFirst = [\<lparr>note_id = 1704067200000, title = js ''A'', content = [],
       createdAt = js ''2024-01-01T00:00:00.000Z'',
       updatedAt = js ''2024-01-01T00:00:00.000Z''\<rparr>]"
  by (simp add: afterFirst_eq collection_def deref_def initial_def)

theorem saveNote_create_prepends_witness:
  "refs_ok draftB \<and> currentNote draftB = None \<and> trim (editorTitle draftB) \<noteq> []
   \<and> collection (snd (saveNote 1704067260000 1704067260000 1704067260000 draftB)) =
       [\<lparr>note_id = 1704067260000, title = js ''B'', content = [],
          createdAt = toISOString 1704067260000, updatedAt = toISOString 1704067260000\<rparr>,
        \<lparr>note_id = 1704067200000, title = js ''A'', content = [],
          createdAt = js ''2024-01-01T00:00:00.000Z'',
          updatedAt = js ''2024-01-01T00:00:00.000Z''\<rparr>]
   \<and> distinct (map note_id (collection (snd (saveNote 1704067260000 1704067260000 1704067260000 draftB))))"
  using saveNote_create_prepends [OF draftB_fields(1,2,3), of 1704067260000 1704067260000 1704067260000]
    draftB_fields collection_afterFirst
  by simp

text \<open>
  The claim as the specification states it fails: when the clock still shows the
  millisecond of the first note's creation at \<open>Date.now()\<close> and ticks between the two
  \<open>new Date()\<close> calls, the new note takes an id that a note of the collection already
  has, and its createdAt differs from its updatedAt.
\<close>

theorem saveNote_create_fresh_counterexample:
  "refs_ok draftB \<and> currentNote draftB = None \<and> trim (editorTitle draftB) \<noteq> []
   \<and> note_id (hd (collection (snd (saveNote 1704067200000 1704067200000 1704067200001 draftB))))
       \<in> set (map note_id (collection draftB))
   \<and> createdAt (hd (collection (snd (saveNote 1704067200000 1704067200000 1704067200001 draftB))))
       \<noteq> updatedAt (hd (collection (snd (saveNote 1704067200000 1704067200000 1704067200001 draftB))))"
proof -
  have "toISOString 1704067200000 \<noteq> toISOString 1704067200001"
    by (simp add: iso_first iso_next js_def)
  then show ?thesis
    using collection_after_create [OF draftB_fields(1,3,2), of 1704067200000 1704067200000 1704067200001]
      draftB_fields collection_afterFirst
    by simp
qed

section \<open>Sequences of creations\<close>

lemma create_step:
  assumes "refs_ok st" and "nonblank r"
  shows "collection (create r st) =
       \<lparr>note_id = reading r, title = fst r, content = fst (snd r),
          createdAt = toISOString (fst (snd (snd (snd r)))),
          updatedAt = toISOString (snd (snd (snd (snd r))))\<rparr> # collection st"
    and "refs_ok (create r st)"
proof -
  obtain ttl body t1 t2 t3 where r: "r = (ttl, body, t1, t2, t3)"
    by (cases r) auto
  let ?d = "(createNewNote st)\<lparr>editorTitle := ttl, editorContent := body\<rparr>"
  have d: "refs_ok ?d" "trim (editorTitle ?d) \<noteq> []" "currentNote ?d = None"
    "collection ?d = collection st"
    using assms
    by (simp_all add: r nonblank_def createNewNote_def refs_ok_def collection_def deref_def)
  show "collection (create r st) =
       \<lparr>note_id = reading r, title = fst r, content = fst (snd r),
          createdAt = toISOString (fst (snd (snd (snd r)))),
          updatedAt = toISOString (snd (snd (snd (snd r))))\<rparr> # collection st"
    using collection_after_create [OF d(1,2,3), of t1 t2 t3] d(4)
    by (simp add: r create_def reading_def)
  show "refs_ok (create r st)"
    using refs_ok_after_save [OF d(1), of t1 t2 t3]
    by (simp add: r create_def)
qed

lemma creates_ids:
  assumes "refs_ok st" and "list_all nonblank rs"
  shows "map note_id (collection (creates rs st)) = rev (map reading rs) @ map note_id (collection st)"
  using assms
proof (induction rs arbitrary: st)
  case Nil
  then show ?case by simp
next
  case (Cons r rs)
  from Cons.prems have nb: "nonblank r" and rest: "list_all nonblank rs"
    by simp_all
  have "map note_id (collection (creates rs (create r st)))
      = rev (map reading rs) @ map note_id (collection (create r st))"
    using Cons.IH [OF create_step(2) [OF Cons.prems(1) nb] rest] .
  then show ?case
    by (simp add: create_step(1) [OF Cons.prems(1) nb])
qed

text \<open>
  C4, as the code has it. For every sequence of create operations with non-blank titles
  starting from the empty collection, the collection holds exactly one note per
  operation, newest first, and the id of each is the value \<open>Date.now()\<close> returned in
  its save. The ids are therefore pairwise distinct if and only if those clock readings
  are pairwise distinct.
\<close>

theorem creates_ids_are_readings:
  assumes "list_all nonblank rs"
  shows "map note_id (collection (creates rs initial)) = rev (map reading rs)
     \<and> length (collection (creates rs initial)) = length rs
     \<and> (distinct (map note_id (collection (creates rs initial))) \<longleftrightarrow> distinct (map reading rs))"
proof -
  have ids: "map note_id (collection (creates rs initial)) = rev (map reading rs)"
    using creates_ids [OF refs_ok_initial assms]
    by (simp add: collection_def initial_def)
  have "length (map note_id (collection (creates rs initial))) = length (rev (map reading rs))"
    by (simp only: ids)
  then have "length (collection (creates rs initial)) = length rs"
    by simp
  moreover have "distinct (map note_id (collection (creates rs initial))) \<longleftrightarrow> distinct (map reading rs)"
    by (simp only: ids distinct_rev)
  ultimately show ?thesis
    using ids by blast
qed

lemma nonblank_examples:
  "nonblank (js ''A'', [], t1, t2, t3)" "nonblank (js ''B'', [], t1, t2, t3)"
  using nonblank_A nonblank_B by (simp_all add: nonblank_def)

theorem creates_ids_are_readings_witness:
  "list_all nonblank [(js ''A'', [], 1704067200000, 1704067200000, 1704067200000),
                      (js ''B'', [], 1704067260000, 1704067260000, 1704067260000)]
   \<and> map note_id (collection (creates
        [(js ''A'', [], 1704067200000, 1704067200000, 1704067200000),
         (js ''B'', [], 1704067260000, 1704067260000, 1704067260000)] initial))
       = [1704067260000, 1704067200000]
   \<and> distinct (map note_id (collection (creates
        [(js ''A'', [], 1704067200000, 1704067200000, 1704067200000),
         (js ''B'', [], 1704067260000, 1704067260000, 1704067260000)] initial)))"
proof -
  have nb: "list_all nonblank [(js ''A'', [], 1704067200000, 1704067200000, 1704067200000),
                      (js ''B'', [], 1704067260000, 1704067260000, 1704067260000)]"
    by (simp add: nonblank_examples)
  from creates_ids_are_readings [OF nb] nb show ?thesis
    by (simp add: reading_def)
qed

text \<open>
  The claim as the specification states it fails: two creations whose saves read the
  same millisecond from the clock leave two notes with one id.
\<close>

theorem creates_distinct_ids_counterexample:
  "list_all nonblank [(js ''A'', [], 1704067200000, 1704067200000, 1704067200000),
                      (js ''B'', [], 1704067200000, 1704067200000, 1704067200000)]
   \<and> \<not> distinct (map note_id (collection (creates
        [(js ''A'', [], 1704067200000, 1704067200000, 1704067200000),
         (js ''B'', [], 1704067200000, 1704067200000, 1704067200000)] initial)))"
proof -
  have nb: "list_all nonblank [(js ''A'', [], 1704067200000, 1704067200000, 1704067200000),
                      (js ''B'', [], 1704067200000, 1704067200000, 1704067200000)]"
    by (simp add: nonblank_examples)
  have "map note_id (collection (creates
        [(js ''A'', [], 1704067200000, 1704067200000, 1704067200000),
         (js ''B'', [], 1704067200000, 1704067200000, 1704067200000)] initial))
      = [1704067200000, 1704067200000]"
    using creates_ids [OF refs_ok_initial nb]
    by (simp add: reading_def collection_def initial_def)
  then show ?thesis
    using nb by simp
qed

section \<open>Updating a note in place\<close>

text \<open>
  C5. For every state whose references are valid, with the editor open on a note object
  and a draft title that is non-empty after trimming, the save writes the draft's title
  and content and the ISO rendering of the clock reading into that object's title,
  content and updatedAt and nothing else: the object keeps its id and createdAt, every
  other note object is as it was, and \<open>notes.value\<close> holds the same references in the
  same order, so the collection is the old one with the updated note in its old place.
\<close>

theorem saveNote_update_in_place:
  assumes "refs_ok st" and "currentNote st = Some a" and "trim (editorTitle st) \<noteq> []"
  shows "fst (saveNote t1 t2 t3 st) = None
     \<and> deref (snd (saveNote t1 t2 t3 st)) a =
         (deref st a)\<lparr>title := editorTitle st, content := editorContent st,
                      updatedAt := toISOString t1\<rparr>
     \<and> note_id (deref (snd (saveNote t1 t2 t3 st)) a) = note_id (deref st a)
     \<and> createdAt (deref (snd (saveNote t1 t2 t3 st)) a) = createdAt (deref st a)
     \<and> (\<forall>b. b \<noteq> a \<longrightarrow> deref (snd (saveNote t1 t2 t3 st)) b = deref st b)
     \<and> length (objs (snd (saveNote t1 t2 t3 st))) = length (objs st)
     \<and> notes_value (snd (saveNote t1 t2 t3 st)) = notes_value st
     \<and> collection (snd (saveNote t1 t2 t3 st)) =
         map (\<lambda>b. if b = a
                   then (deref st a)\<lparr>title := editorTitle st, content := editorContent st,
                          updatedAt := toISOString t1\<rparr>
                   else deref st b) (notes_value st)"
proof -
  have a: "a < length (objs st)"
    using assms(1,2) by (rule refs_ok_current)
  note s = saveNote_update [OF assms(3,2), of t1 t2 t3]
  have upd: "deref (snd (saveNote t1 t2 t3 st)) a =
         (deref st a)\<lparr>title := editorTitle st, content := editorContent st,
                      updatedAt := toISOString t1\<rparr>"
    using a by (simp add: s deref_def)
  have others: "\<forall>b. b \<noteq> a \<longrightarrow> deref (snd (saveNote t1 t2 t3 st)) b = deref st b"
    by (simp add: s deref_def)
  have coll: "collection (snd (saveNote t1 t2 t3 st)) =
         map (\<lambda>b. if b = a
                   then (deref st a)\<lparr>title := editorTitle st, content := editorContent st,
                          updatedAt := toISOString t1\<rparr>
                   else deref st b) (notes_value st)"
    unfolding collection_def
  proof (rule map_cong [OF _ _])
    show "notes_value (snd (saveNote t1 t2 t3 st)) = notes_value st"
      by (simp add: s)
  next
    fix b
    show "deref (snd (saveNote t1 t2 t3 st)) b =
        (if b = a
         then (deref st a)\<lparr>title := editorTitle st, content := editorContent st,
                updatedAt := toISOString t1\<rparr>
         else deref st b)"
      using upd others by simp
  qed
  have "fst (saveNote t1 t2 t3 st) = None"
    "length (objs (snd (saveNote t1 t2 t3 st))) = length (objs st)"
    "notes_value (snd (saveNote t1 t2 t3 st)) = notes_value st"
    by (simp_all add: s)
  moreover have "note_id (deref (snd (saveNote t1 t2 t3 st)) a) = note_id (deref st a)"
    "createdAt (deref (snd (saveNote t1 t2 t3 st)) a) = createdAt (deref st a)"
    by (simp_all add: upd)
  ultimately show ?thesis
    using upd others coll by blast
qed

lemma editingGroceries_fields:
  "refs_ok editingGroceries" "currentNote editingGroceries = Some 0"
  "trim (editorTitle editingGroceries) \<noteq> []"
  "notes_value editingGroceries = [1, 0]"
  "deref editingGroceries 0 = groceries" "deref editingGroceries (Suc 0) = todo"
  "editorTitle editingGroceries = js ''Groceries''"
  "editorContent editingGroceries = js ''milk eggs bread cheese''"
  by (simp_all add: editingGroceries_def editNote_def twoNotes_def initial_def refs_ok_def
      deref_def groceries_def trim_empty_iff isWhiteSpace_def js_def)

theorem saveNote_update_in_place_witness:
  "refs_ok editingGroceries \<and> currentNote editingGroceries = Some 0
   \<and> 0 \<in> set (notes_value editingGroceries)
   \<and> trim (editorTitle editingGroceries) \<noteq> []
   \<and> collection (snd (saveNote 1704067320000 1704067320000 1704067320000 editingGroceries))
       = [todo, groceries\<lparr>title := js ''Groceries'', content := js ''milk eggs bread cheese'',
                  updatedAt := toISOString 1704067320000\<rparr>]
   \<and> createdAt (deref (snd (saveNote 1704067320000 1704067320000 1704067320000 editingGroceries)) 0)
       = js ''2024-01-01T00:00:00.000Z''"
  using saveNote_update_in_place [OF editingGroceries_fields(1,2,3),
      of 1704067320000 1704067320000 1704067320000]
    editingGroceries_fields
  by (simp add: groceries_def)

section \<open>The stored title\<close>

text \<open>
  C10. For every state whose references are valid and every draft whose title is
  non-empty after trimming, the save stores the draft title as it was typed, leading and
  trailing white space included: in create mode it is the title of the note now at the
  front of the collection, in update mode the title of the note object the editor was
  open on. The trimmed title is only compared with the empty string.
\<close>

theorem saveNote_stores_untrimmed_title:
  assumes "refs_ok st" and "trim (editorTitle st) \<noteq> []"
  shows "fst (saveNote t1 t2 t3 st) = None
     \<and> (currentNote st = None \<longrightarrow>
          title (hd (collection (snd (saveNote t1 t2 t3 st)))) = editorTitle st)
     \<and> (\<forall>a. currentNote st = Some a \<longrightarrow>
          title (deref (snd (saveNote t1 t2 t3 st)) a) = editorTitle st)"
proof (cases "currentNote st")
  case None
  then show ?thesis
    using collection_after_create [OF assms(1,2) None, of t1 t2 t3]
    by (simp add: saveNote_create [OF assms(2) None])
next
  case (Some a)
  have "a < length (objs st)"
    using assms(1) Some by (rule refs_ok_current)
  then show ?thesis
    using Some by (simp add: saveNote_update [OF assms(2) Some] deref_def)
qed

lemma padded_fields:
  "refs_ok paddedNew" "trim (editorTitle paddedNew) \<noteq> []" "currentNote paddedNew = None"
  "refs_ok paddedEdit" "trim (editorTitle paddedEdit) \<noteq> []" "currentNote paddedEdit = Some 0"
  "editorTitle paddedNew = js '' Milk ''" "editorTitle paddedEdit = js '' Milk ''"
  by (simp_all add: paddedNew_def paddedEdit_def createNewNote_def editNote_def twoNotes_def
      initial_def refs_ok_def trim_empty_iff isWhiteSpace_def js_def)

lemma trim_padded: "trim (js '' Milk '') = js ''Milk''"
  by (simp add: trim_def isWhiteSpace_def js_def)

theorem saveNote_stores_untrimmed_title_witness:
  "refs_ok paddedNew \<and> trim (editorTitle paddedNew) \<noteq> [] \<and> currentNote paddedNew = None
   \<and> title (hd (collection (snd (saveNote 1704067320000 1704067320000 1704067320000 paddedNew))))
       = js '' Milk ''
   \<and> refs_ok paddedEdit \<and> trim (editorTitle paddedEdit) \<noteq> [] \<and> currentNote paddedEdit = Some 0
   \<and> title (deref (snd (saveNote 1704067320000 1704067320000 1704067320000 paddedEdit)) 0)
       = js '' Milk ''
   \<and> js '' Milk '' \<noteq> trim (js '' Milk '')"
proof -
  have "js '' Milk '' \<noteq> trim (js '' Milk '')"
    unfolding trim_padded by (simp add: js_def)
  then show ?thesis
    using saveNote_stores_untrimmed_title [OF padded_fields(1,2),
        of 1704067320000 1704067320000 1704067320000]
      saveNote_stores_untrimmed_title [OF padded_fields(4,5),
        of 1704067320000 1704067320000 1704067320000]
      padded_fields
    by simp
qed

section \<open>Deleting a note\<close>

lemma deleteNote_declined: "deleteNote False x st = st"
  by (simp add: deleteNote_def)

lemma deleteNote_objs [simp]: "objs (deleteNote c x st) = objs st"
  by (simp add: deleteNote_def Let_def)

lemma deref_deleteNote [simp]: "deref (deleteNote c x st) a = deref st a"
  by (simp add: deref_def)

lemma deleteNote_notes:
  "notes_value (deleteNote True x st) = filter (\<lambda>a. note_id (deref st a) \<noteq> x) (notes_value st)"
  by (simp add: deleteNote_def Let_def)

lemma collection_deleteNote:
  "collection (deleteNote True x st) = filter (\<lambda>n. note_id n \<noteq> x) (collection st)"
  by (simp add: collection_def deleteNote_notes filter_map comp_def)

lemma deleteNote_closes:
  assumes "currentNote st = Some a" and "note_id (deref st a) = x"
  shows "deleteNote True x st =
     closeEditor (st\<lparr>notes_value := filter (\<lambda>a. note_id (deref st a) \<noteq> x) (notes_value st)\<rparr>)"
  using assms by (simp add: deleteNote_def Let_def deref_def)

lemma deleteNote_keeps_session:
  assumes "\<forall>a. currentNote st = Some a \<longrightarrow> note_id (deref st a) \<noteq> x"
  shows "deleteNote True x st =
     st\<lparr>notes_value := filter (\<lambda>a. note_id (deref st a) \<noteq> x) (notes_value st)\<rparr>"
  using assms by (cases "currentNote st") (simp_all add: deleteNote_def Let_def deref_def)

lemma deleteNote_twice: "deleteNote True x (deleteNote True x st) = deleteNote True x st"
proof (cases "\<exists>a. currentNote st = Some a \<and> note_id (deref st a) = x")
  case True
  then obtain a where a: "currentNote st = Some a" "note_id (deref st a) = x"
    by blast
  let ?s = "deleteNote True x st"
  have "\<forall>b. currentNote ?s = Some b \<longrightarrow> note_id (deref ?s b) \<noteq> x"
    by (simp add: deleteNote_closes [OF a])
  then have "deleteNote True x ?s =
      ?s\<lparr>notes_value := filter (\<lambda>a. note_id (deref ?s a) \<noteq> x) (notes_value ?s)\<rparr>"
    by (rule deleteNote_keeps_session)
  also have "\<dots> = ?s"
    by (simp add: deleteNote_notes)
  finally show ?thesis .
next
  case False
  then have k: "\<forall>a. currentNote st = Some a \<longrightarrow> note_id (deref st a) \<noteq> x"
    by blast
  let ?s = "deleteNote True x st"
  have "\<forall>b. currentNote ?s = Some b \<longrightarrow> note_id (deref ?s b) \<noteq> x"
    using k by (simp add: deleteNote_keeps_session [OF k] deref_def)
  then have "deleteNote True x ?s =
      ?s\<lparr>notes_value := filter (\<lambda>a. note_id (deref ?s a) \<noteq> x) (notes_value ?s)\<rparr>"
    by (rule deleteNote_keeps_session)
  also have "\<dots> = ?s"
    by (simp add: deleteNote_notes)
  finally show ?thesis .
qed

text \<open>
  C6, as the code has it. \<open>deleteNote\<close> first asks the user to confirm. For every state
  and every id: when the user confirms, the collection afterwards is the old one without
  the notes of that id, in the old order, so it holds no note of that id; it is the old
  collection when no note had that id, and then, unless the editor is open on an object
  of that id, the whole state is unchanged; a second confirmed delete of the same id
  changes nothing. When the user declines, nothing changes. No path of \<open>deleteNote\<close>
  raises an exception or an alert: it returns a state and nothing else.
\<close>

theorem deleteNote_after_confirmation:
  "collection (deleteNote True x st) = filter (\<lambda>n. note_id n \<noteq> x) (collection st)
   \<and> x \<notin> set (map note_id (collection (deleteNote True x st)))
   \<and> (x \<notin> set (map note_id (collection st)) \<longrightarrow>
        collection (deleteNote True x st) = collection st)
   \<and> (x \<notin> set (map note_id (collection st))
        \<and> (\<forall>a. currentNote st = Some a \<longrightarrow> note_id (deref st a) \<noteq> x) \<longrightarrow>
        deleteNote True x st = st)
   \<and> deleteNote True x (deleteNote True x st) = deleteNote True x st
   \<and> deleteNote False x st = st"
proof -
  have c: "collection (deleteNote True x st) = filter (\<lambda>n. note_id n \<noteq> x) (collection st)"
    by (rule collection_deleteNote)
  have gone: "x \<notin> set (map note_id (collection (deleteNote True x st)))"
    unfolding c by auto
  have absent: "collection (deleteNote True x st) = collection st"
    if "x \<notin> set (map note_id (collection st))"
  proof -
    from that have "\<forall>n\<in>set (collection st). note_id n \<noteq> x"
      by auto
    then show ?thesis
      unfolding c by simp
  qed
  have same: "deleteNote True x st = st"
    if "x \<notin> set (map note_id (collection st))"
      and k: "\<forall>a. currentNote st = Some a \<longrightarrow> note_id (deref st a) \<noteq> x"
  proof -
    from that(1) have "\<forall>a\<in>set (notes_value st). note_id (deref st a) \<noteq> x"
      by (auto simp: collection_def)
    then have "filter (\<lambda>a. note_id (deref st a) \<noteq> x) (notes_value st) = notes_value st"
      by simp
    then show ?thesis
      by (simp add: deleteNote_keeps_session [OF k])
  qed
  show ?thesis
    using c gone absent same deleteNote_twice [of x st] deleteNote_declined [of x st]
    by blast
qed

lemma twoNotes_fields:
  "collection twoNotes = [todo, groceries]" "currentNote twoNotes = None"
  "note_id todo = 1704067260000" "note_id groceries = 1704067200000"
  by (simp_all add: collection_def deref_def twoNotes_def initial_def todo_def groceries_def)

theorem deleteNote_after_confirmation_witness:
  "collection (deleteNote True 1704067200000 twoNotes) = [todo]
   \<and> 5 \<notin> set (map note_id (collection twoNotes))
   \<and> currentNote twoNotes = None
   \<and> deleteNote True 5 twoNotes = twoNotes
   \<and> deleteNote True 1704067200000 (deleteNote True 1704067200000 twoNotes)
       = deleteNote True 1704067200000 twoNotes"
  using deleteNote_after_confirmation [of 1704067200000 twoNotes]
    deleteNote_after_confirmation [of 5 twoNotes] twoNotes_fields
  by simp

text \<open>
  The claim as the specification states it fails: a delete that the user declines
  leaves the note of that id in the collection.
\<close>

theorem deleteNote_declined_counterexample:
  "collection twoNotes = [todo, groceries] \<and> note_id groceries = 1704067200000
   \<and> 1704067200000 \<in> set (map note_id (collection (deleteNote False 1704067200000 twoNotes)))"
  using twoNotes_fields by (simp add: deleteNote_def)

section \<open>Deleting the note that is open in the editor\<close>

text \<open>
  C7, as the code has it. For every state in which the editor is open on a note object
  whose id is the one deleted: when the user confirms the delete, the editor is closed
  afterwards, \<open>currentNote\<close> is null and both draft fields are empty. When the user
  declines, the session stays as it was.
\<close>

theorem deleteNote_closes_open_session:
  assumes "currentNote st = Some a" and "note_id (deref st a) = x"
  shows "showEditor (deleteNote True x st) = False
     \<and> currentNote (deleteNote True x st) = None
     \<and> editorTitle (deleteNote True x st) = []
     \<and> editorContent (deleteNote True x st) = []
     \<and> deleteNote False x st = st"
  by (simp add: deleteNote_closes [OF assms] deleteNote_declined)

lemma openOnGroceries_fields:
  "currentNote openOnGroceries = Some 0" "note_id (deref openOnGroceries 0) = 1704067200000"
  "showEditor openOnGroceries" "editorTitle openOnGroceries = js ''Groceries''"
  "editorContent openOnGroceries = js ''milk eggs bread''"
  "collection openOnGroceries = [todo, groceries]"
  by (simp_all add: openOnGroceries_def editNote_def twoNotes_def deref_def collection_def
      groceries_def)

theorem deleteNote_closes_open_session_witness:
  "currentNote openOnGroceries = Some 0
   \<and> note_id (deref openOnGroceries 0) = 1704067200000
   \<and> showEditor openOnGroceries
   \<and> showEditor (deleteNote True 1704067200000 openOnGroceries) = False
   \<and> currentNote (deleteNote True 1704067200000 openOnGroceries) = None
   \<and> editorTitle (deleteNote True 1704067200000 openOnGroceries) = []
   \<and> editorContent (deleteNote True 1704067200000 openOnGroceries) = []"
  using deleteNote_closes_open_session [OF openOnGroceries_fields(1,2)] openOnGroceries_fields
  by simp

text \<open>
  The claim as the specification states it fails: after a delete that the user
  declines, the editor is still open on the note, with its draft.
\<close>

theorem deleteNote_declined_session_counterexample:
  "currentNote openOnGroceries = Some 0
   \<and> note_id (deref openOnGroceries 0) = 1704067200000
   \<and> showEditor (deleteNote False 1704067200000 openOnGroceries)
   \<and> currentNote (deleteNote False 1704067200000 openOnGroceries) = Some 0
   \<and> editorTitle (deleteNote False 1704067200000 openOnGroceries) = js ''Groceries''"
  using openOnGroceries_fields by (simp add: deleteNote_def)

section \<open>Loading on mount\<close>

text \<open>
  C8, as the code has it. On the initial load, when \<open>getItem\<close> returns null, or the
  empty string, the callback completes, registering the keyboard listener, and the
  collection stays the empty one it was created with. When the text is non-empty and
  \<open>JSON.parse\<close> throws, nothing catches the exception: the load fails with it, the
  listener is not registered, and the collection, not yet assigned, is still the empty
  one.
\<close>

theorem onMounted_absent_or_unparsable:
  "(savedNotes = None \<or> savedNotes = Some [] \<longrightarrow>
      onMounted savedNotes parsed initial = (None, initial\<lparr>keydownListener := True\<rparr>))
   \<and> (\<forall>s e. savedNotes = Some s \<and> s \<noteq> [] \<and> parsed = Inl e \<longrightarrow>
      onMounted savedNotes parsed initial = (Some e, initial))
   \<and> collection initial = []"
  by (auto simp: onMounted_def collection_def initial_def)

theorem onMounted_absent_or_unparsable_witness:
  "onMounted None (Inl SyntaxError) initial = (None, initial\<lparr>keydownListener := True\<rparr>)
   \<and> collection (snd (onMounted None (Inl SyntaxError) initial)) = []
   \<and> js ''{'' \<noteq> []
   \<and> onMounted (Some (js ''{'')) (Inl SyntaxError) initial = (Some SyntaxError, initial)
   \<and> collection (snd (onMounted (Some (js ''{'')) (Inl SyntaxError) initial)) = []"
proof -
  have ne: "js ''{'' \<noteq> []"
    by (simp add: js_def)
  from onMounted_absent_or_unparsable [of None "Inl SyntaxError"]
    onMounted_absent_or_unparsable [of "Some (js ''{'')" "Inl SyntaxError"] ne
  show ?thesis by (simp add: collection_def initial_def)
qed

text \<open>
  The claim as the specification states it fails: with the stored text \<open>{\<close>, on which
  \<open>JSON.parse\<close> throws \<open>SyntaxError\<close>, the load does not complete; it ends with
  that exception.
\<close>

theorem onMounted_unparsable_counterexample:
  "fst (onMounted (Some (js ''{'')) (Inl SyntaxError) initial) = Some SyntaxError"
  by (simp add: onMounted_def js_def)

section \<open>Inline formatting\<close>

lemma format_names:
  "js ''bold'' \<noteq> js ''italic''" "js ''bold'' \<noteq> js ''heading''" "js ''bold'' \<noteq> js ''bullet''"
  by (simp_all add: js_def)

text \<open>
  C9, as the code has it. For every draft and every selection with
  \<open>selectionStart \<le> selectionEnd \<le> length\<close> of the content, the format \<open>bold\<close>
  raises nothing and replaces the selected code units by the same code units between
  two pairs of asterisks; the text before \<open>selectionStart\<close> and the text from
  \<open>selectionEnd\<close> on are unchanged, and so is the rest of the state. In the content
  \<open>the cat sat\<close> the word \<open>cat\<close> is the selection from 4 to 7, and that selection,
  not the one from 2 to 5, yields \<open>the **cat** sat\<close>.
\<close>

theorem applyFormat_bold_wraps_selection:
  assumes "start \<le> end'" and "end' \<le> length (editorContent st)"
  shows "applyFormat (js ''bold'') (Some (start, end')) st =
     (None, st\<lparr>editorContent :=
        take start (editorContent st) @ js ''**''
        @ take (end' - start) (drop start (editorContent st)) @ js ''**''
        @ drop end' (editorContent st)\<rparr>)"
proof -
  have "start \<le> length (editorContent st)"
    using assms by simp
  then show ?thesis
    using assms
    by (simp add: applyFormat_def Let_def substring_in_range substring_zero
        substringFrom_in_range)
qed

lemma catDraft_content: "editorContent catDraft = js ''the cat sat''"
  by (simp add: catDraft_def)

lemma cat_length: "length (js ''the cat sat'') = 11"
  by (simp add: js_def)

theorem applyFormat_bold_wraps_selection_witness:
  "(4::nat) \<le> 7 \<and> 7 \<le> length (editorContent catDraft)
   \<and> take (7 - 4) (drop 4 (editorContent catDraft)) = js ''cat''
   \<and> applyFormat (js ''bold'') (Some (4, 7)) catDraft
       = (None, catDraft\<lparr>editorContent := js ''the **cat** sat''\<rparr>)"
proof -
  have len: "7 \<le> length (editorContent catDraft)"
    by (simp add: catDraft_content cat_length)
  have le: "(4::nat) \<le> 7"
    by simp
  have sel: "take (7 - 4) (drop 4 (editorContent catDraft)) = js ''cat''"
    by (simp add: catDraft_content js_def)
  have "take 4 (editorContent catDraft) @ js ''**''
        @ take (7 - 4) (drop 4 (editorContent catDraft)) @ js ''**''
        @ drop 7 (editorContent catDraft) = js ''the **cat** sat''"
    by (simp add: catDraft_content js_def)
  with applyFormat_bold_wraps_selection [OF le len] len sel show ?thesis
    by simp
qed

text \<open>
  The claim as the specification states it fails: the selection from 2 to 5 of
  \<open>the cat sat\<close> is \<open>e c\<close>, and making it bold yields \<open>th**e c**at sat\<close>.
\<close>

theorem applyFormat_bold_2_5_counterexample:
  "substring (editorContent catDraft) 2 5 = js ''e c''
   \<and> editorContent (snd (applyFormat (js ''bold'') (Some (2, 5)) catDraft)) = js ''th**e c**at sat''
   \<and> editorContent (snd (applyFormat (js ''bold'') (Some (2, 5)) catDraft)) \<noteq> js ''the **cat** sat''"
proof -
  have sel: "substring (editorContent catDraft) 2 5 = js ''e c''"
    by (simp add: catDraft_content substring_def cat_length) (simp add: js_def)
  have before: "substring (editorContent catDraft) 0 2 = js ''th''"
    by (simp add: catDraft_content substring_def cat_length) (simp add: js_def)
  have after: "substringFrom (editorContent catDraft) 5 = js ''at sat''"
    by (simp add: catDraft_content substringFrom_def substring_def cat_length) (simp add: js_def)
  have res: "editorContent (snd (applyFormat (js ''bold'') (Some (2, 5)) catDraft)) = js ''th**e c**at sat''"
    by (simp add: applyFormat_def Let_def sel before after) (simp add: js_def)
  have "js ''th**e c**at sat'' \<noteq> js ''the **cat** sat''"
    by (simp add: js_def)
  with sel res show ?thesis
    by simp
qed

section \<open>An invariant of the reachable states\<close>

lemma session_ok_initial: "session_ok initial"
  by (simp add: session_ok_def refs_ok_def initial_def)

lemma session_ok_onMounted: "session_ok (snd (onMounted savedNotes parsed initial))"
  by (auto simp: onMounted_def session_ok_def refs_ok_def initial_def list_all_iff Let_def
      split: option.splits sum.splits)

lemma session_ok_saveNote:
  assumes "session_ok st"
  shows "session_ok (snd (saveNote t1 t2 t3 st))"
proof (cases "trim (editorTitle st) = []")
  case True
  then show ?thesis using assms by (simp add: saveNote_def)
next
  case False
  have r: "refs_ok (snd (saveNote t1 t2 t3 st))"
    using assms by (simp add: session_ok_def refs_ok_after_save)
  show ?thesis
  proof (cases "currentNote st")
    case None
    have "length (objs st) \<notin> set (notes_value st)"
      using assms refs_ok_notes [of st "length (objs st)"] by (auto simp: session_ok_def)
    then show ?thesis
      using assms r by (simp add: session_ok_def saveNote_create [OF False None])
  next
    case (Some a)
    then show ?thesis
      using assms r by (simp add: session_ok_def saveNote_update [OF False Some])
  qed
qed

lemma session_ok_deleteNote:
  assumes "session_ok st"
  shows "session_ok (deleteNote confirmed noteId st)"
proof (cases confirmed)
  case False
  then show ?thesis using assms by (simp add: deleteNote_def)
next
  case True
  show ?thesis
  proof (cases "\<exists>a. currentNote st = Some a \<and> note_id (deref st a) = noteId")
    case True
    then obtain a where a: "currentNote st = Some a" "note_id (deref st a) = noteId"
      by blast
    show ?thesis
      using assms \<open>confirmed\<close>
      by (auto simp: deleteNote_closes [OF a] session_ok_def refs_ok_def list_all_iff)
  next
    case False
    then have k: "\<forall>a. currentNote st = Some a \<longrightarrow> note_id (deref st a) \<noteq> noteId"
      by blast
    show ?thesis
      using assms \<open>confirmed\<close> k
      by (auto simp: deleteNote_keeps_session [OF k] session_ok_def refs_ok_def list_all_iff
          split: option.splits)
  qed
qed

lemma session_ok_applyFormat:
  assumes "session_ok st"
  shows "session_ok (snd (applyFormat fmt textarea st))"
  using assms
  by (auto simp: applyFormat_def session_ok_def refs_ok_def Let_def split: option.splits)

lemma reachable_session_ok:
  assumes "reachable st"
  shows "session_ok st"
  using assms
proof (induction rule: reachable.induct)
  case start
  show ?case by (rule session_ok_initial)
next
  case (mount savedNotes parsed)
  show ?case by (rule session_ok_onMounted)
next
  case (unmount st)
  then show ?case
    by (auto simp: onUnmounted_def session_ok_def refs_ok_def split: option.splits)
next
  case (new st)
  then show ?case by (simp add: createNewNote_def session_ok_def refs_ok_def)
next
  case (edit st a)
  then show ?case
    by (auto simp: editNote_def session_ok_def refs_ok_def list_all_iff split: option.splits)
next
  case (typeTitle st s)
  then show ?case
    by (auto simp: session_ok_def refs_ok_def closeEditor_def split: option.splits)
next
  case (typeContent st s)
  then show ?case
    by (auto simp: session_ok_def refs_ok_def closeEditor_def split: option.splits)
next
  case (typeQuery st s)
  then show ?case
    by (auto simp: session_ok_def refs_ok_def closeEditor_def split: option.splits)
next
  case (save st t1 t2 t3)
  then show ?case by (simp add: session_ok_saveNote)
next
  case (delete st confirmed noteId)
  then show ?case by (simp add: session_ok_deleteNote)
next
  case (close st)
  then show ?case
    by (auto simp: session_ok_def refs_ok_def closeEditor_def split: option.splits)
next
  case (format st fmt textarea)
  then show ?case by (simp add: session_ok_applyFormat)
qed

lemma reachable_refs_ok: "reachable st \<Longrightarrow> refs_ok st"
  using reachable_session_ok by (simp add: session_ok_def)

end
